theory Spec2Isabelle
  imports Main
begin

section \<open>Errors\<close>

text \<open>
  The exceptions the modelled code can raise: a failed \<open>assert\<close> (with its message),
  \<open>deque.pop()\<close> on an empty deque, \<open>deque(None)\<close>, and \<open>sys.exit\<close>.
\<close>

datatype error =
    AssertionError string
  | IndexError
  | TypeError
  | SystemExit string

section \<open>Deck\<close>

text \<open>
  \<open>Deck.cards\<close> is a \<open>collections.deque\<close>. It is modelled by the list of its items from
  the left end to the right end: \<open>pop()\<close> removes the last item of the list and
  \<open>appendleft(c)\<close> puts \<open>c\<close> in front of it.
\<close>

datatype 'a Deck = MkDeck (cards: "'a list")

text \<open>
  \<open>random.shuffle(xs)\<close> permutes the list \<open>xs\<close> in place and returns \<open>None\<close>. The
  permutation chosen is the parameter \<open>rnd\<close>; the result is the pair of the list after
  the call and the returned value (\<open>None\<close>, whatever the type of a would-be result).
\<close>

definition random_shuffle :: "('a list \<Rightarrow> 'a list) \<Rightarrow> 'a list \<Rightarrow> 'a list \<times> 'a list option" where
  "random_shuffle rnd xs = (rnd xs, None)"

text \<open>\<open>deque(x)\<close>: iterating \<open>None\<close> raises \<open>TypeError\<close>.\<close>

fun deque :: "'a list option \<Rightarrow> error + 'a list" where
  "deque None = Inl TypeError"
| "deque (Some xs) = Inr xs"

text \<open>\<open>Deck.__init__\<close>: shuffles \<open>items\<close> in place, then copies them into a deque.\<close>

definition Deck_init :: "('a list \<Rightarrow> 'a list) \<Rightarrow> 'a list \<Rightarrow> 'a Deck" where
  "Deck_init rnd items = MkDeck (fst (random_shuffle rnd items))"

definition count :: "'a Deck \<Rightarrow> int" where
  "count d = int (length (cards d))"

text \<open>
  \<open>Deck.shuffle\<close>: the assertion, then \<open>reShuffled = shuffle(list(self.cards))\<close> (the value
  \<open>random.shuffle\<close> returns), then \<open>self.cards = deque(reShuffled)\<close>. The result is the
  outcome together with the deck as the call leaves it.
\<close>

definition shuffle :: "('a list \<Rightarrow> 'a list) \<Rightarrow> 'a Deck \<Rightarrow> (error + unit) \<times> 'a Deck" where
  "shuffle rnd d =
     (if length (cards d) > 0 then
        (let reShuffled = snd (random_shuffle rnd (cards d)) in
         case deque reShuffled of
           Inl e \<Rightarrow> (Inl e, d)
         | Inr cs \<Rightarrow> (Inr (), MkDeck cs))
      else (Inl (AssertionError ''Can't shuffle an empty deck''), d))"

text \<open>
  The loop of \<open>Deck.draw\<close>: \<open>k\<close> iterations are left, \<open>cardsDrawn\<close> is the list built so
  far, \<open>cs\<close> is the deque. \<open>pop()\<close> on an empty deque raises \<open>IndexError\<close>, and the cards
  popped before that stay removed.
\<close>

fun draw_loop :: "nat \<Rightarrow> 'a list \<Rightarrow> 'a list \<Rightarrow> (error + 'a list) \<times> 'a list" where
  "draw_loop 0 cardsDrawn cs = (Inr cardsDrawn, cs)"
| "draw_loop (Suc k) cardsDrawn cs =
     (if cs = [] then (Inl IndexError, cs)
      else draw_loop k (cardsDrawn @ [last cs]) (butlast cs))"

text \<open>\<open>Deck.draw\<close>; \<open>range(number)\<close> is empty for a negative \<open>number\<close>.\<close>

definition draw :: "int \<Rightarrow> 'a Deck \<Rightarrow> (error + 'a list) \<times> 'a Deck" where
  "draw number d =
     (if length (cards d) > 0 then
        (let (r, cs) = draw_loop (nat number) [] (cards d) in (r, MkDeck cs))
      else (Inl (AssertionError ''Can't draw from an empty deck.''), d))"

text \<open>
  \<open>Deck.insert\<close>: one \<open>appendleft\<close> per card, in the order of the argument. (The
  assertion on the argument's type holds for every list.)
\<close>

definition insert_Deck :: "'a list \<Rightarrow> 'a Deck \<Rightarrow> 'a Deck" where
  "insert_Deck cs d = MkDeck (foldl (\<lambda>dq card. card # dq) (cards d) cs)"

section \<open>Routes, destinations and actions\<close>

record Destination =
  dest_city1 :: string
  dest_city2 :: string
  dest_points :: int
  dest_index :: int

record Route =
  city1 :: string
  city2 :: string
  weight :: int
  color :: string
  index :: int

text \<open>
  \<open>Action\<close>: the attribute \<open>action\<close> is 0 (place a route), 1 (draw face up), 2 (draw face
  down) or 3 (destination cards), and each kind carries the attributes its constructor
  stores. With \<open>askingForDeal=True\<close> no \<open>takeDests\<close> is stored (\<open>None\<close> below). The
  assertions of \<open>Action.__init__\<close> hold at every construction in \<open>validMoves\<close>: the routes
  are \<open>Route\<close> objects, the lists of colours are not empty, the cards are strings.
\<close>

datatype Action =
    PlaceRoute (route: Route) (colorsUsed: "string list")
  | DrawFaceUp (colorToDraw: string)
  | DrawFaceDown
  | DrawDestination (askingForDeal: bool) (takeDests: "int list option")

fun action :: "Action \<Rightarrow> int" where
  "action (PlaceRoute r cs) = 0"
| "action (DrawFaceUp c) = 1"
| "action DrawFaceDown = 2"
| "action (DrawDestination b t) = 3"

definition listDestTakes :: "int list list" where
  "listDestTakes = [[0], [1], [2], [0, 1], [0, 2], [1, 2], [0, 1, 2]]"

text \<open>The dictionary \<open>color_indexing\<close>, in the order of its keys.\<close>

definition color_indexing :: "(string \<times> int) list" where
  "color_indexing =
     [(''PINK'', 0), (''WHITE'', 1), (''BLUE'', 2), (''YELLOW'', 3), (''ORANGE'', 4),
      (''BLACK'', 5), (''RED'', 6), (''GREEN'', 7), (''WILD'', 8)]"

section \<open>Agents and the board\<close>

record Agent =
  points :: int
  name :: string
  trainsLeft :: int
  turnOrder :: "int option"
  trainCards :: "string list"
  destinationCards :: "Destination list"
  colorCounts :: "int list list"

definition Agent_init :: "string \<Rightarrow> Agent" where
  "Agent_init nm =
     \<lparr>points = 0, name = nm, trainsLeft = 45, turnOrder = None, trainCards = [],
      destinationCards = [],
      colorCounts = [replicate 9 0, replicate 9 0, replicate 9 0]\<rparr>"

text \<open>
  \<open>Agent\<close> objects are shared between the list handed to \<open>Game\<close>, the game's \<open>players\<close>
  and \<open>makingNextMove\<close>, and \<open>Game.__init__\<close> writes to them. They live in a store: a
  reference is a position in the list of all agents, and allocation appends.
\<close>

type_synonym ref = nat
type_synonym heap = "Agent list"

text \<open>
  The board is a \<open>networkx.MultiGraph\<close>. It is modelled by the sequence of triples that
  \<open>board.edges(data=True)\<close> yields: the two end points and the attributes of the edge.
  The attribute \<open>owner\<close> is \<open>None\<close> or a string.
\<close>

record Edge =
  edge_u :: string
  edge_v :: string
  edge_weight :: int
  edge_color :: string
  edge_owner :: "string option"
  edge_index :: int

definition has_edge :: "Edge list \<Rightarrow> string \<Rightarrow> string \<Rightarrow> bool" where
  "has_edge b x y =
     list_ex (\<lambda>e. (edge_u e = x \<and> edge_v e = y) \<or> (edge_u e = y \<and> edge_v e = x)) b"

definition new_edge :: "Route \<Rightarrow> Edge" where
  "new_edge r =
     \<lparr>edge_u = city1 r, edge_v = city2 r, edge_weight = weight r, edge_color = color r,
      edge_owner = None, edge_index = index r\<rparr>"

text \<open>
  \<open>board.add_edges_from(...)\<close> consumes the generator one route at a time, so that
  \<open>board.has_edge\<close> sees the edges added before. The result is the graph as the list of
  its edges in the order they were added, each with the end points as they were given.
\<close>

fun add_edges_from :: "bool \<Rightarrow> Edge list \<Rightarrow> Route list \<Rightarrow> Edge list" where
  "add_edges_from allParallel b [] = b"
| "add_edges_from allParallel b (r # rs) =
     (if allParallel \<or> has_edge b (city1 r) (city2 r) = False
      then add_edges_from allParallel (b @ [new_edge r]) rs
      else add_edges_from allParallel b rs)"

text \<open>
  How the graph library iterates over a graph built by adding edges. Its dictionaries keep
  the order of insertion: the nodes are in the order of their first occurrence in an added
  edge (first end point before second), the neighbours of a node in the order in which
  they first became adjacent to it, and the parallel edges of a pair of nodes in the
  order they were added.
\<close>

definition first_occurrences :: "'a list \<Rightarrow> 'a list" where
  "first_occurrences xs = rev (remdups (rev xs))"

definition graph_nodes :: "Edge list \<Rightarrow> string list" where
  "graph_nodes es = first_occurrences (concat (map (\<lambda>e. [edge_u e, edge_v e]) es))"

definition neighbours :: "Edge list \<Rightarrow> string \<Rightarrow> string list" where
  "neighbours es n =
     first_occurrences
       (concat (map (\<lambda>e. (if edge_u e = n then [edge_v e] else [])
                          @ (if edge_v e = n then [edge_u e] else [])) es))"

definition edges_between :: "Edge list \<Rightarrow> string \<Rightarrow> string \<Rightarrow> Edge list" where
  "edges_between es n nbr =
     filter (\<lambda>e. (edge_u e = n \<and> edge_v e = nbr) \<or> (edge_u e = nbr \<and> edge_v e = n)) es"

text \<open>
  \<open>edges(data=True)\<close>: for every node \<open>n\<close> in turn, for every neighbour \<open>nbr\<close> of \<open>n\<close> that
  is not a node already done, the edges between the two, each reported as the triple
  \<open>(n, nbr, data)\<close>. \<open>seen\<close> holds the nodes already done.
\<close>

fun edges_from :: "Edge list \<Rightarrow> string list \<Rightarrow> string list \<Rightarrow> Edge list" where
  "edges_from es seen [] = []"
| "edges_from es seen (n # ns) =
     concat (map (\<lambda>nbr. map (\<lambda>e. e\<lparr>edge_u := n, edge_v := nbr\<rparr>) (edges_between es n nbr))
                 (filter (\<lambda>nbr. nbr \<notin> set seen) (neighbours es n)))
     @ edges_from es (n # seen) ns"

definition edges_data :: "Edge list \<Rightarrow> Edge list" where
  "edges_data es = edges_from es [] (graph_nodes es)"

text \<open>
  \<open>initBoard\<close>; its first argument is what \<open>getRoutes(map)\<close> read from the map's file. The
  board it returns is given, as every board here, by what \<open>edges(data=True)\<close> yields.
\<close>

definition initBoard :: "Route list \<Rightarrow> int \<Rightarrow> Edge list" where
  "initBoard routes nplayers = edges_data (add_edges_from (nplayers = 4) [] routes)"

section \<open>Game\<close>

record Game =
  map_name :: string
  doLogs :: bool
  drawGame :: bool
  gameOver :: bool
  lastTurn :: bool
  endedGame :: "int option"
  colorPicked :: "string option"
  turn :: int
  wildPicked :: bool
  gameLogs :: "string list"
  trainCarDeck :: "string Deck"
  destinationDeal :: "Destination list option"
  movePerforming :: "Action option"
  board :: "Edge list"
  faceUpCards :: "string list"
  game_destinationCards :: "Destination list"
  destinationsDeck :: "Destination Deck"
  players :: "ref list"
  makingNextMove :: ref

text \<open>
  What a constructor call takes from outside the program: the contents of the map's two
  files as \<open>getRoutes\<close> and \<open>getDestinationCards\<close> return them, and the permutations
  \<open>random.shuffle\<close> picks for the train car deck and for the destination deck.
\<close>

record Env =
  getRoutes :: "string \<Rightarrow> Route list"
  getDestinationCards :: "string \<Rightarrow> Destination list"
  rnd_trainCars :: "string list \<Rightarrow> string list"
  rnd_destinations :: "Destination list \<Rightarrow> Destination list"

text \<open>The function \<open>trainCarDeck()\<close>: the 110 cards, shuffled by \<open>Deck\<close>.\<close>

definition trainCarDeck_items :: "string list" where
  "trainCarDeck_items =
     replicate 12 ''PINK'' @ replicate 12 ''WHITE'' @ replicate 12 ''BLUE''
     @ replicate 12 ''YELLOW'' @ replicate 12 ''ORANGE'' @ replicate 12 ''BLACK''
     @ replicate 12 ''RED'' @ replicate 12 ''GREEN'' @ replicate 14 ''WILD''"

definition new_trainCarDeck :: "(string list \<Rightarrow> string list) \<Rightarrow> string Deck" where
  "new_trainCarDeck rnd = Deck_init rnd trainCarDeck_items"

text \<open>
  The loop at the end of \<open>Game.__init__\<close>: every agent of the list gets its position as
  \<open>turnOrder\<close> and four cards drawn from the new game's deck as \<open>trainCards\<close>.
\<close>

fun deal_players :: "heap \<Rightarrow> string Deck \<Rightarrow> int \<Rightarrow> ref list \<Rightarrow> error + (heap \<times> string Deck)" where
  "deal_players h d i [] = Inr (h, d)"
| "deal_players h d i (player # rest) =
     (case draw 4 d of
        (Inl e, d') \<Rightarrow> Inl e
      | (Inr drawn, d') \<Rightarrow>
          deal_players (h[player := (h ! player)\<lparr>turnOrder := Some i, trainCards := drawn\<rparr>])
            d' (i + 1) rest)"

text \<open>
  \<open>Game.__init__\<close>, in the order of its statements. \<open>Deck(self.destinationCards)\<close>
  shuffles the list it is given in place, so \<open>destinationCards\<close> holds the shuffled list
  too. \<open>self.players[0]\<close> is read after the check that there are two to four players.
\<close>

definition Game_init ::
  "Env \<Rightarrow> heap \<Rightarrow> string \<Rightarrow> ref list \<Rightarrow> bool \<Rightarrow> bool \<Rightarrow> error + (heap \<times> Game)" where
  "Game_init env h mp ps logs drw =
     (let deck0 = new_trainCarDeck (rnd_trainCars env);
          brd = initBoard (getRoutes env mp) (int (length ps))
      in case draw 5 deck0 of
           (Inl e, deck1) \<Rightarrow> Inl e
         | (Inr faceUp, deck1) \<Rightarrow>
             (let dests = fst (random_shuffle (rnd_destinations env) (getDestinationCards env mp))
              in if \<not> (2 \<le> length ps \<and> length ps \<le> 4)
                 then Inl (SystemExit ''ERROR: Game must have 2-4 players'')
                 else case deal_players h deck1 0 ps of
                        Inl e \<Rightarrow> Inl e
                      | Inr (h', deck2) \<Rightarrow>
                          Inr (h',
                            \<lparr>map_name = mp, doLogs = logs, drawGame = drw, gameOver = False,
                             lastTurn = False, endedGame = None, colorPicked = None,
                             turn = 1 - int (length ps), wildPicked = False, gameLogs = [],
                             trainCarDeck = deck2, destinationDeal = None,
                             movePerforming = Some (DrawDestination True None),
                             board = brd, faceUpCards = faceUp,
                             game_destinationCards = dests,
                             destinationsDeck = MkDeck dests,
                             players = ps, makingNextMove = ps ! 0\<rparr>)))"

text \<open>
  \<open>deepcopy\<close> of a list of agents: every agent is copied to a new object, and an agent
  that occurs twice is copied once (the memo of the call).
\<close>

fun deepcopy_agents :: "heap \<Rightarrow> (ref \<times> ref) list \<Rightarrow> ref list \<Rightarrow> heap \<times> ref list" where
  "deepcopy_agents h memo [] = (h, [])"
| "deepcopy_agents h memo (a # as) =
     (case map_of memo a of
        Some b \<Rightarrow> (let (h', bs) = deepcopy_agents h memo as in (h', b # bs))
      | None \<Rightarrow>
          (let b = length h;
               (h', bs) = deepcopy_agents (h @ [h ! a]) ((a, b) # memo) as
           in (h', b # bs)))"

definition deepcopy_agent :: "heap \<Rightarrow> ref \<Rightarrow> heap \<times> ref" where
  "deepcopy_agent h a = (h @ [h ! a], length h)"

text \<open>
  \<open>Game.clone\<close>: a new game built by the constructor from \<open>self.map\<close> and \<open>self.players\<close>
  (the very list, and so the very agents, of this game), then one \<open>deepcopy\<close> per field.
  All fields but the agents are values here, so their copies are the values themselves;
  the players and \<open>makingNextMove\<close> are copied by two separate calls.
\<close>

definition clone :: "Env \<Rightarrow> heap \<Rightarrow> Game \<Rightarrow> error + (heap \<times> Game)" where
  "clone env h self =
     (case Game_init env h (map_name self) (players self) False False of
        Inl e \<Rightarrow> Inl e
      | Inr (h1, new) \<Rightarrow>
          (let (h2, ps') = deepcopy_agents h1 [] (players self);
               (h3, nxt') = deepcopy_agent h2 (makingNextMove self)
           in Inr (h3,
                new\<lparr>turn := turn self, board := board self, players := ps',
                    gameLogs := gameLogs self, gameOver := gameOver self,
                    lastTurn := lastTurn self, endedGame := endedGame self,
                    wildPicked := wildPicked self, faceUpCards := faceUpCards self,
                    colorPicked := colorPicked self, trainCarDeck := trainCarDeck self,
                    makingNextMove := nxt', movePerforming := movePerforming self,
                    destinationDeal := destinationDeal self,
                    game_destinationCards := game_destinationCards self,
                    destinationsDeck := destinationsDeck self\<rparr>)))"

section \<open>The legal actions\<close>

text \<open>
  The body of the loop over the routes for a route whose colour is not \<open>GRAY\<close>
  (\<open>numColor\<close> is the number of cards of that colour in the hand).
\<close>

definition claim_colored :: "Route \<Rightarrow> int \<Rightarrow> string \<Rightarrow> int \<Rightarrow> int \<Rightarrow> Action list" where
  "claim_colored routeType wt col numColor numWilds =
     (if numColor = 0 then []
      else if numColor < wt then
        (if numWilds > 0 then
           (if numWilds + numColor = wt then [PlaceRoute routeType [col, ''WILD'']]
            else if numWilds + numColor > wt then
              [PlaceRoute routeType [col, ''WILD'']]
              @ (if numWilds < wt then [PlaceRoute routeType [''WILD'', col]] else [])
            else [])
         else [])
      else if numColor \<ge> wt then
        [PlaceRoute routeType [col]]
        @ (if 0 < numWilds \<and> numWilds < wt then [PlaceRoute routeType [''WILD'', col]] else [])
      else [])"

text \<open>
  The body of the inner loop for a \<open>GRAY\<close> route, for one key \<open>col\<close> of \<open>color_indexing\<close>
  (here the two tests on \<open>numWilds + numColor\<close> are two \<open>if\<close> statements).
\<close>

definition claim_gray_with :: "Route \<Rightarrow> int \<Rightarrow> string \<Rightarrow> int \<Rightarrow> int \<Rightarrow> Action list" where
  "claim_gray_with routeType wt col numColor numWilds =
     (if numColor = 0 then []
      else if numColor < wt then
        (if numWilds > 0 then
           (if numWilds + numColor = wt then [PlaceRoute routeType [col, ''WILD'']] else [])
           @ (if numWilds + numColor > wt then
                [PlaceRoute routeType [col, ''WILD'']]
                @ (if numWilds < wt then [PlaceRoute routeType [''WILD'', col]] else [])
              else [])
         else [])
      else if numColor \<ge> wt then
        [PlaceRoute routeType [col]]
        @ (if 0 < numWilds \<and> numWilds < wt then [PlaceRoute routeType [''WILD'', col]] else [])
      else [])"

definition routeType_of :: "Edge \<Rightarrow> Route" where
  "routeType_of e =
     \<lparr>city1 = edge_u e, city2 = edge_v e, weight = edge_weight e, color = edge_color e,
      index = edge_index e\<rparr>"

text \<open>One iteration of the loop over \<open>self.board.edges(data=True)\<close>, for the hand \<open>hand\<close>.\<close>

definition route_actions :: "string list \<Rightarrow> int \<Rightarrow> Edge \<Rightarrow> Action list" where
  "route_actions hand numWilds e =
     (if edge_owner e \<noteq> Some '''' then []
      else
        (let wt = edge_weight e; col = edge_color e; routeType = routeType_of e
         in if col \<noteq> ''GRAY'' then
              claim_colored routeType wt col (int (count_list hand col)) numWilds
            else
              concat (map (\<lambda>k. claim_gray_with routeType wt k (int (count_list hand k)) numWilds)
                          (map fst color_indexing))
              @ (if numWilds \<ge> wt then [PlaceRoute routeType [''WILD'']] else [])))"

text \<open>The branch of \<open>validMoves\<close> for \<open>movePerforming == None\<close>.\<close>

definition free_choice_actions :: "heap \<Rightarrow> Game \<Rightarrow> Action list" where
  "free_choice_actions h self =
     (let hand = trainCards (h ! makingNextMove self);
          numWilds = int (count_list hand ''WILD'')
      in concat (map (route_actions hand numWilds) (board self))
         @ (if length (faceUpCards self) > 0 then map DrawFaceUp (faceUpCards self) else [])
         @ (if count (trainCarDeck self) > 0 then [DrawFaceDown] else [])
         @ (if count (destinationsDeck self) \<ge> 3 then [DrawDestination True None] else []))"

text \<open>
  \<open>Game.validMoves\<close>: the list it returns and the game as the call leaves it (the message
  it prints is not modelled). No branch matches a \<open>movePerforming\<close> whose \<open>action\<close> is 0.
\<close>

definition validMoves :: "heap \<Rightarrow> Game \<Rightarrow> Action list \<times> Game" where
  "validMoves h self =
     (if gameOver self then ([], self)
      else
        (let actionList =
               (case movePerforming self of
                  None \<Rightarrow> free_choice_actions h self
                | Some mv \<Rightarrow>
                    if action mv = 1 then
                      map DrawFaceUp (filter (\<lambda>card. card \<noteq> ''WILD'') (faceUpCards self))
                      @ (if count (trainCarDeck self) \<ge> 1 then [DrawFaceDown] else [])
                    else if action mv = 2 then
                      map DrawFaceUp (faceUpCards self)
                      @ (if count (trainCarDeck self) \<ge> 1 then [DrawFaceDown] else [])
                    else if action mv = 3 then
                      map (\<lambda>take. DrawDestination False (Some take)) listDestTakes
                    else [])
         in if length actionList = 0
            then (actionList,
                  self\<lparr>gameOver := True,
                       endedGame := turnOrder (h ! makingNextMove self)\<rparr>)
            else (actionList, self)))"

section \<open>The payment variants as the specification words them\<close>




section \<open>States used to evaluate the functions\<close>

text \<open>
  A store with two agents, the first of them holding \<open>hand\<close>, and a two-player game in
  progress over it, with the first agent to move: not over, with the given board, phase,
  face-up cards and train car deck, and an empty destination deck.
\<close>

definition heap_with :: "string list \<Rightarrow> heap" where
  "heap_with hand =
     [(Agent_init ''A'')\<lparr>turnOrder := Some 0, trainCards := hand\<rparr>,
      (Agent_init ''B'')\<lparr>turnOrder := Some 1\<rparr>]"

definition game_with :: "Edge list \<Rightarrow> Action option \<Rightarrow> string list \<Rightarrow> string list \<Rightarrow> Game" where
  "game_with brd mv faceUp deck =
     \<lparr>map_name = ''USA'', doLogs = False, drawGame = False, gameOver = False,
      lastTurn = False, endedGame = None, colorPicked = None, turn = 1,
      wildPicked = False, gameLogs = [], trainCarDeck = MkDeck deck,
      destinationDeal = None, movePerforming = mv, board = brd, faceUpCards = faceUp,
      game_destinationCards = [], destinationsDeck = MkDeck [],
      players = [0, 1], makingNextMove = 0\<rparr>"

text \<open>An unowned edge between two cities \<open>A\<close> and \<open>B\<close>.\<close>

definition unowned_edge :: "int \<Rightarrow> string \<Rightarrow> int \<Rightarrow> Edge" where
  "unowned_edge wt col i =
     \<lparr>edge_u = ''A'', edge_v = ''B'', edge_weight = wt, edge_color = col,
      edge_owner = Some '''', edge_index = i\<rparr>"

text \<open>
  An environment whose map has a red and a gray route of length 3 between \<open>A\<close> and \<open>B\<close>
  and no destination cards, and whose shuffles leave every list as it is.
\<close>

definition env_fixed :: Env where
  "env_fixed =
     \<lparr>getRoutes = (\<lambda>m. [\<lparr>city1 = ''A'', city2 = ''B'', weight = 3, color = ''RED'', index = 0\<rparr>,
                        \<lparr>city1 = ''A'', city2 = ''B'', weight = 3, color = ''GRAY'', index = 1\<rparr>]),
      getDestinationCards = (\<lambda>m. []),
      rnd_trainCars = (\<lambda>xs. xs),
      rnd_destinations = (\<lambda>xs. xs)\<rparr>"

section \<open>Deck: properties\<close>

lemma appendleft_all: "foldl (\<lambda>dq card. card # dq) dq cs = rev cs @ dq"
  by (induction cs arbitrary: dq) simp_all

lemma draw_loop_enough:
  "k \<le> length cs \<Longrightarrow>
   draw_loop k acc cs = (Inr (acc @ take k (rev cs)), take (length cs - k) cs)"
proof (induction k arbitrary: acc cs)
  case 0
  then show ?case by simp
next
  case (Suc k)
  then have ne: "cs \<noteq> []" by auto
  then obtain ys y where cs: "cs = ys @ [y]"
    by (meson rev_exhaust)
  from Suc.prems cs have "k \<le> length ys" by simp
  from Suc.IH [OF this] cs show ?case by simp
qed

lemma draw_loop_short:
  "length cs < k \<Longrightarrow> draw_loop k acc cs = (Inl IndexError, [])"
proof (induction k arbitrary: acc cs)
  case 0
  then show ?case by simp
next
  case (Suc k)
  show ?case
  proof (cases "cs = []")
    case True
    then show ?thesis by simp
  next
    case False
    then obtain ys y where cs: "cs = ys @ [y]"
      by (meson rev_exhaust)
    with Suc.prems have "length (butlast cs) < k" by simp
    from Suc.IH [OF this] False show ?thesis by simp
  qed
qed

text \<open>
  C5. \<open>insert\<close> puts the cards at the left end of the deque, the end opposite to the one
  \<open>draw\<close> pops from. Read from the draw end, the deck after the call is the old deck
  followed by the inserted cards in the order they were given; \<open>count()\<close> grows by the
  number of inserted cards; and drawing the whole deck afterwards returns the old cards
  first and then the inserted ones in their given order.
\<close>

theorem insert_appends_opposite_end:
  "cards (insert_Deck cs d) = rev cs @ cards d
   \<and> rev (cards (insert_Deck cs d)) = rev (cards d) @ cs
   \<and> count (insert_Deck cs d) = count d + int (length cs)
   \<and> (cards (insert_Deck cs d) \<noteq> [] \<longrightarrow>
        fst (draw (count (insert_Deck cs d)) (insert_Deck cs d)) = Inr (rev (cards d) @ cs))"
proof -
  have c: "cards (insert_Deck cs d) = rev cs @ cards d"
    by (simp add: insert_Deck_def appendleft_all)
  have "draw_loop (length (rev cs @ cards d)) [] (rev cs @ cards d)
        = (Inr ([] @ take (length (rev cs @ cards d)) (rev (rev cs @ cards d))),
           take (length (rev cs @ cards d) - length (rev cs @ cards d)) (rev cs @ cards d))"
    by (rule draw_loop_enough) simp
  moreover have "nat (count (insert_Deck cs d)) = length (rev cs @ cards d)"
    by (simp add: count_def c)
  ultimately have "cards (insert_Deck cs d) \<noteq> [] \<longrightarrow>
        fst (draw (count (insert_Deck cs d)) (insert_Deck cs d)) = Inr (rev (cards d) @ cs)"
    by (simp add: draw_def c)
  with c show ?thesis by (simp add: count_def)
qed

theorem insert_appends_opposite_end_witness:
  "cards (insert_Deck [''RED'', ''BLUE''] (MkDeck [''PINK'', ''WILD''])) \<noteq> []
   \<and> fst (draw (count (insert_Deck [''RED'', ''BLUE''] (MkDeck [''PINK'', ''WILD''])))
            (insert_Deck [''RED'', ''BLUE''] (MkDeck [''PINK'', ''WILD''])))
     = Inr [''WILD'', ''PINK'', ''RED'', ''BLUE'']"
  using insert_appends_opposite_end [of "[''RED'', ''BLUE'']" "MkDeck [''PINK'', ''WILD'']"]
  by (simp add: insert_Deck_def count_def draw_def)

text \<open>
  C6. \<open>shuffle\<close> never succeeds: on an empty deck the assertion fails, and on every other
  deck \<open>random.shuffle\<close> returns \<open>None\<close>, so that \<open>deque(reShuffled)\<close> raises \<open>TypeError\<close>
  before \<open>self.cards\<close> is assigned. Evaluated on the one-card deck: the call fails and the
  deck is as before, whatever permutation the generator picks; and so it is on every
  deck.
\<close>

theorem shuffle_nonempty_fails:
  "shuffle rnd (MkDeck [''RED'']) = (Inl TypeError, MkDeck [''RED''])
   \<and> isl (fst (shuffle rnd d)) \<and> snd (shuffle rnd d) = d"
  by (simp add: shuffle_def random_shuffle_def)

text \<open>
  C7 as stated fails on the empty deck with \<open>number = 0\<close>: no card is missing, and the
  assertion still fails.
\<close>

theorem draw_zero_from_empty_fails:
  "isl (fst (draw 0 (MkDeck ([] :: string list))))
   \<and> \<not> count (MkDeck ([] :: string list)) < 0"
  by (simp add: draw_def count_def)

text \<open>
  C7, amended. For a non-negative \<open>number\<close>, \<open>draw\<close> fails iff the deck is empty or holds
  fewer than \<open>number\<close> cards. Otherwise it returns exactly \<open>number\<close> cards, the ones at the
  draw end in the order they are popped, and leaves the rest of the deck in place.
\<close>

theorem draw_fails_iff:
  assumes "0 \<le> number"
  shows "(isl (fst (draw number d)) \<longleftrightarrow> count d = 0 \<or> count d < number)
   \<and> (\<not> (count d = 0 \<or> count d < number) \<longrightarrow>
        draw number d = (Inr (take (nat number) (rev (cards d))),
                         MkDeck (take (length (cards d) - nat number) (cards d)))
        \<and> int (length (take (nat number) (rev (cards d)))) = number
        \<and> count (snd (draw number d)) = count d - number)"
proof (cases "count d = 0 \<or> count d < number")
  case True
  then show ?thesis
  proof
    assume "count d = 0"
    then show ?thesis by (simp add: draw_def count_def)
  next
    assume lt: "count d < number"
    show ?thesis
    proof (cases "cards d = []")
      case True
      then show ?thesis by (simp add: draw_def count_def)
    next
      case False
      from lt have "length (cards d) < nat number" by (simp add: count_def)
      from draw_loop_short [OF this] False lt show ?thesis
        by (simp add: draw_def)
    qed
  qed
next
  case False
  then have ne: "cards d \<noteq> []" and le: "nat number \<le> length (cards d)"
    by (auto simp: count_def)
  from draw_loop_enough [OF le, of "[]"] ne
  have eq: "draw number d = (Inr (take (nat number) (rev (cards d))),
                         MkDeck (take (length (cards d) - nat number) (cards d)))"
    by (simp add: draw_def)
  from False le assms show ?thesis
    by (simp add: eq count_def)
qed

theorem draw_fails_iff_witness:
  "(0::int) \<le> 2
   \<and> \<not> (count (MkDeck [''PINK'', ''RED'', ''WILD'']) = 0
          \<or> count (MkDeck [''PINK'', ''RED'', ''WILD'']) < 2)
   \<and> draw 2 (MkDeck [''PINK'', ''RED'', ''WILD''])
       = (Inr [''WILD'', ''RED''], MkDeck [''PINK''])"
proof -
  have h: "(0::int) \<le> 2" by simp
  show ?thesis
    using draw_fails_iff [OF h, of "MkDeck [''PINK'', ''RED'', ''WILD'']"]
    by (simp add: count_def)
qed

section \<open>The legal actions: properties\<close>

lemma fst_validMoves:
  "\<not> gameOver g \<Longrightarrow> fst (validMoves h g) =
     (case movePerforming g of
        None \<Rightarrow> free_choice_actions h g
      | Some mv \<Rightarrow>
          if action mv = 1 then
            map DrawFaceUp (filter (\<lambda>card. card \<noteq> ''WILD'') (faceUpCards g))
            @ (if count (trainCarDeck g) \<ge> 1 then [DrawFaceDown] else [])
          else if action mv = 2 then
            map DrawFaceUp (faceUpCards g)
            @ (if count (trainCarDeck g) \<ge> 1 then [DrawFaceDown] else [])
          else if action mv = 3 then
            map (\<lambda>take. DrawDestination False (Some take)) listDestTakes
          else [])"
  by (simp add: validMoves_def Let_def)

subsection \<open>Every action of a route's iteration claims that route\<close>




lemma route_actions_owned: "edge_owner e \<noteq> Some '''' \<Longrightarrow> route_actions hand nw e = []"
  by (simp add: route_actions_def)










subsection \<open>Gray routes\<close>

text \<open>
  C1. The keys of \<open>color_indexing\<close> include \<open>WILD\<close>, so the loop over the colours of a gray
  route handles the wildcards as one more colour, before the test \<open>numWilds >= weight\<close>
  after the loop. With four wildcards and nothing else in the hand, an unowned gray route
  of length 3 gets two equal actions paid with \<open>[WILD]\<close>, not one; and with only two
  wildcards it gets two actions paid with \<open>[WILD, WILD]\<close>, though two wildcards cannot
  pay for three.
\<close>

theorem gray_route_wild_twice:
  "fst (validMoves (heap_with [''WILD'', ''WILD'', ''WILD'', ''WILD''])
         (game_with [unowned_edge 3 ''GRAY'' 0] None [] []))
   = [PlaceRoute \<lparr>city1 = ''A'', city2 = ''B'', weight = 3, color = ''GRAY'', index = 0\<rparr>
        [''WILD''],
      PlaceRoute \<lparr>city1 = ''A'', city2 = ''B'', weight = 3, color = ''GRAY'', index = 0\<rparr>
        [''WILD'']]
   \<and> fst (validMoves (heap_with [''WILD'', ''WILD''])
         (game_with [unowned_edge 3 ''GRAY'' 0] None [] []))
   = [PlaceRoute \<lparr>city1 = ''A'', city2 = ''B'', weight = 3, color = ''GRAY'', index = 0\<rparr>
        [''WILD'', ''WILD''],
      PlaceRoute \<lparr>city1 = ''A'', city2 = ''B'', weight = 3, color = ''GRAY'', index = 0\<rparr>
        [''WILD'', ''WILD'']]"
  by code_simp

subsection \<open>Routes of a concrete colour\<close>




subsection \<open>The board of a new game\<close>

lemma add_edges_from_owner:
  "\<forall>e \<in> set b. edge_owner e = None \<Longrightarrow>
   \<forall>e \<in> set (add_edges_from p b rs). edge_owner e = None"
proof (induction rs arbitrary: b)
  case Nil
  then show ?case by simp
next
  case (Cons r rs)
  from Cons.prems have "\<forall>e \<in> set (b @ [new_edge r]). edge_owner e = None"
    by (simp add: new_edge_def)
  from Cons.IH [OF this] Cons.IH [OF Cons.prems] show ?case by simp
qed

lemma edges_from_owner:
  "\<forall>e \<in> set es. edge_owner e = None \<Longrightarrow>
   \<forall>e \<in> set (edges_from es seen ns). edge_owner e = None"
  by (induction ns arbitrary: seen) (auto simp: edges_between_def)

lemma initBoard_owner: "e \<in> set (initBoard routes n) \<Longrightarrow> edge_owner e = None"
  using add_edges_from_owner [of "[]" "n = 4" routes]
    edges_from_owner [of "add_edges_from (n = 4) [] routes" "[]"]
  by (simp add: initBoard_def edges_data_def)

lemma Game_init_board:
  "Game_init env h mp ps logs drw = Inr (h1, g0) \<Longrightarrow>
   board g0 = initBoard (getRoutes env mp) (int (length ps))"
  by (auto simp: Game_init_def Let_def split: prod.splits sum.splits if_splits)

text \<open>
  C4. Let \<open>g0\<close> be a game as \<open>Game.__init__\<close> builds it: \<open>initBoard\<close> gives every route the
  owner \<open>None\<close>. Then for every game with the board of \<open>g0\<close> that is in the free-choice
  phase, whatever its other fields and whatever the cards of the agents, no action that
  \<open>validMoves\<close> returns places a route: \<open>None\<close> is not the empty string, and the loop
  skips every route whose owner is not the empty string.
\<close>

theorem fresh_board_no_claims:
  assumes "Game_init env h0 mp ps logs drw = Inr (h1, g0)"
    and "board g = board g0" and "movePerforming g = None"
  shows "\<forall>a \<in> set (fst (validMoves h g)). action a \<noteq> 0"
proof (cases "gameOver g")
  case True
  then show ?thesis by (simp add: validMoves_def)
next
  case False
  have "\<forall>e \<in> set (board g). edge_owner e = None"
    using assms(1,2) by (simp add: Game_init_board initBoard_owner)
  then have "\<forall>e \<in> set (board g). route_actions hand nw e = []" for hand nw
    by (simp add: route_actions_owned)
  then have "concat (map (route_actions hand nw) (board g)) = []" for hand nw
    by simp
  with False assms(3) show ?thesis
    by (auto simp: fst_validMoves free_choice_actions_def Let_def)
qed

theorem fresh_board_no_claims_witness:
  "Game_init env_fixed (heap_with []) ''USA'' [0, 1] False False
     = Inr (projr (Game_init env_fixed (heap_with []) ''USA'' [0, 1] False False))
   \<and> board (snd (projr (Game_init env_fixed (heap_with []) ''USA'' [0, 1] False False)))
       = [\<lparr>edge_u = ''A'', edge_v = ''B'', edge_weight = 3, edge_color = ''RED'',
           edge_owner = None, edge_index = 0\<rparr>]
   \<and> movePerforming
        ((snd (projr (Game_init env_fixed (heap_with []) ''USA'' [0, 1] False False)))
           \<lparr>movePerforming := None\<rparr>) = None
   \<and> filter (\<lambda>a. action a = 0)
        (fst (validMoves (heap_with [''RED'', ''RED'', ''RED''])
           ((snd (projr (Game_init env_fixed (heap_with []) ''USA'' [0, 1] False False)))
              \<lparr>movePerforming := None\<rparr>))) = []"
proof -
  let ?X = "Game_init env_fixed (heap_with []) ''USA'' [0, 1] False False"
  have "\<not> isl ?X" by code_simp
  then have a: "?X = Inr (fst (projr ?X), snd (projr ?X))" by simp
  have b: "board ((snd (projr ?X))\<lparr>movePerforming := None\<rparr>) = board (snd (projr ?X))"
    by simp
  have c: "movePerforming ((snd (projr ?X))\<lparr>movePerforming := None\<rparr>) = None" by simp
  have d: "board (snd (projr ?X))
       = [\<lparr>edge_u = ''A'', edge_v = ''B'', edge_weight = 3, edge_color = ''RED'',
           edge_owner = None, edge_index = 0\<rparr>]"
    by code_simp
  show ?thesis
    using fresh_board_no_claims [OF a b c, of "heap_with [''RED'', ''RED'', ''RED'']"] a d
    by (simp add: filter_empty_conv)
qed

subsection \<open>The phases of a draw and of a destination deal\<close>

text \<open>
  C8 as stated fails: while a face-up draw is being continued, with five wildcards face up
  and an empty train car deck, \<open>validMoves\<close> of a game that is not over returns no action.
\<close>

theorem continuing_draw_can_be_empty:
  "\<not> gameOver (game_with [] (Some (DrawFaceUp ''RED'')) (replicate 5 ''WILD'') [])
   \<and> movePerforming (game_with [] (Some (DrawFaceUp ''RED'')) (replicate 5 ''WILD'') [])
       = Some (DrawFaceUp ''RED'')
   \<and> fst (validMoves (heap_with [])
            (game_with [] (Some (DrawFaceUp ''RED'')) (replicate 5 ''WILD'') [])) = []"
  by code_simp

text \<open>
  C8, amended. In a game that is not over with a move in progress: while a face-up
  draw is continued (\<open>action\<close> 1), \<open>validMoves\<close> returns at least one action iff some face-up
  card is not a wildcard or the train car deck is not empty; while a face-down draw is
  continued (\<open>action\<close> 2), iff there is a face-up card or the train car deck is not empty;
  while a destination deal is decided (\<open>action\<close> 3), always.
\<close>

theorem continuing_phases_nonempty:
  assumes "\<not> gameOver g" and "movePerforming g = Some mv"
  shows "(action mv = 1 \<longrightarrow>
            (fst (validMoves h g) \<noteq> [] \<longleftrightarrow>
               (\<exists>card \<in> set (faceUpCards g). card \<noteq> ''WILD'') \<or> count (trainCarDeck g) \<ge> 1))
       \<and> (action mv = 2 \<longrightarrow>
            (fst (validMoves h g) \<noteq> [] \<longleftrightarrow>
               faceUpCards g \<noteq> [] \<or> count (trainCarDeck g) \<ge> 1))
       \<and> (action mv = 3 \<longrightarrow> fst (validMoves h g) \<noteq> [])"
  using assms by (auto simp: fst_validMoves listDestTakes_def filter_empty_conv)

theorem continuing_phases_nonempty_witness:
  "\<not> gameOver (game_with [] (Some (DrawFaceUp ''RED'')) [''WILD'', ''BLUE''] [])
   \<and> movePerforming (game_with [] (Some (DrawFaceUp ''RED'')) [''WILD'', ''BLUE''] [])
       = Some (DrawFaceUp ''RED'')
   \<and> action (DrawFaceUp ''RED'') = 1
   \<and> fst (validMoves (heap_with [])
            (game_with [] (Some (DrawFaceUp ''RED'')) [''WILD'', ''BLUE''] [])) \<noteq> []
   \<and> \<not> gameOver (game_with [] (Some DrawFaceDown) [''WILD''] [])
   \<and> movePerforming (game_with [] (Some DrawFaceDown) [''WILD''] []) = Some DrawFaceDown
   \<and> action DrawFaceDown = 2
   \<and> fst (validMoves (heap_with []) (game_with [] (Some DrawFaceDown) [''WILD''] [])) \<noteq> []
   \<and> \<not> gameOver (game_with [] (Some (DrawDestination True None)) [] [])
   \<and> movePerforming (game_with [] (Some (DrawDestination True None)) [] [])
       = Some (DrawDestination True None)
   \<and> action (DrawDestination True None) = 3
   \<and> fst (validMoves (heap_with [])
            (game_with [] (Some (DrawDestination True None)) [] [])) \<noteq> []"
proof -
  have a: "\<not> gameOver (game_with brd mv fu dk)" for brd mv fu dk
    by (simp add: game_with_def)
  have b: "movePerforming (game_with brd mv fu dk) = mv" for brd mv fu dk
    by (simp add: game_with_def)
  have c: "faceUpCards (game_with brd mv fu dk) = fu" for brd mv fu dk
    by (simp add: game_with_def)
  show ?thesis
    using continuing_phases_nonempty [where h = "heap_with []"
          and g = "game_with [] (Some (DrawFaceUp ''RED'')) [''WILD'', ''BLUE''] []"
          and mv = "DrawFaceUp ''RED''"]
      continuing_phases_nonempty [where h = "heap_with []"
          and g = "game_with [] (Some DrawFaceDown) [''WILD''] []" and mv = DrawFaceDown]
      continuing_phases_nonempty [where h = "heap_with []"
          and g = "game_with [] (Some (DrawDestination True None)) [] []"
          and mv = "DrawDestination True None"]
    by (simp add: a b c)
qed

text \<open>
  C9 as stated fails: the flag \<open>gameOver\<close> is a component of the state too, and in a game
  that is over \<open>validMoves\<close> returns no action, also while a destination deal is decided.
\<close>

theorem over_game_offers_nothing:
  "movePerforming ((game_with [] (Some (DrawDestination True None)) [] [])\<lparr>gameOver := True\<rparr>)
     = Some (DrawDestination True None)
   \<and> action (DrawDestination True None) = 3
   \<and> fst (validMoves (heap_with [])
            ((game_with [] (Some (DrawDestination True None)) [] [])\<lparr>gameOver := True\<rparr>)) = []"
  by code_simp

text \<open>
  C9, amended. Whenever the game is not over and a destination deal is in progress
  (\<open>movePerforming.action\<close> is 3), \<open>validMoves\<close> returns exactly the seven actions that keep
  the cards of \<open>listDestTakes\<close>, whatever the other components of the state; these seven
  lists stand for seven different sets, which are all the non-empty subsets of
  \<open>{0, 1, 2}\<close>.
\<close>

theorem destination_decision_seven:
  assumes "\<not> gameOver g" and "movePerforming g = Some mv" and "action mv = 3"
  shows "fst (validMoves h g) = map (\<lambda>take. DrawDestination False (Some take)) listDestTakes
       \<and> length (fst (validMoves h g)) = 7
       \<and> distinct (map set listDestTakes)
       \<and> set (map set listDestTakes) = {s. s \<subseteq> {0, 1, 2} \<and> s \<noteq> {}}"
proof -
  have "set (map set listDestTakes) = Pow {0, 1, 2} - {{}}"
    by (auto simp: listDestTakes_def Pow_insert)
  moreover have "distinct (map set listDestTakes)"
    by code_simp
  ultimately show ?thesis using assms
    by (auto simp: fst_validMoves listDestTakes_def)
qed

theorem destination_decision_seven_witness:
  "\<not> gameOver (game_with [] (Some (DrawDestination True None)) [] [])
   \<and> movePerforming (game_with [] (Some (DrawDestination True None)) [] [])
       = Some (DrawDestination True None)
   \<and> action (DrawDestination True None) = 3
   \<and> fst (validMoves (heap_with []) (game_with [] (Some (DrawDestination True None)) [] []))
     = [DrawDestination False (Some [0]), DrawDestination False (Some [1]),
        DrawDestination False (Some [2]), DrawDestination False (Some [0, 1]),
        DrawDestination False (Some [0, 2]), DrawDestination False (Some [1, 2]),
        DrawDestination False (Some [0, 1, 2])]"
proof -
  have a: "\<not> gameOver (game_with [] (Some (DrawDestination True None)) [] [])"
    by (simp add: game_with_def)
  have b: "movePerforming (game_with [] (Some (DrawDestination True None)) [] [])
       = Some (DrawDestination True None)"
    by (simp add: game_with_def)
  have c: "action (DrawDestination True None) = 3" by simp
  show ?thesis
    using destination_decision_seven [OF a b c, of "heap_with []"]
    by (simp add: a b listDestTakes_def)
qed

subsection \<open>No legal action\<close>

text \<open>
  C10. Whenever \<open>validMoves\<close> returns the empty list, \<open>gameOver\<close> is true in the game as the
  call leaves it; and if the game was not over before the call, \<open>endedGame\<close> then holds
  the turn order of the agent who was to move.
\<close>

theorem empty_enumeration_is_terminal:
  "fst (validMoves h g) = [] \<longrightarrow>
     gameOver (snd (validMoves h g))
     \<and> (\<not> gameOver g \<longrightarrow>
          endedGame (snd (validMoves h g)) = turnOrder (h ! makingNextMove g))"
  by (simp add: validMoves_def Let_def)

theorem empty_enumeration_is_terminal_witness:
  "fst (validMoves (heap_with []) (game_with [] None [] [])) = []
   \<and> \<not> gameOver (game_with [] None [] [])
   \<and> gameOver (snd (validMoves (heap_with []) (game_with [] None [] [])))
   \<and> endedGame (snd (validMoves (heap_with []) (game_with [] None [] []))) = Some 0"
  using empty_enumeration_is_terminal [of "heap_with []" "game_with [] None [] []"]
  by (simp add: validMoves_def free_choice_actions_def heap_with_def game_with_def count_def
        Agent_init_def)

section \<open>Cloning\<close>

lemma draw_loop_length:
  "draw_loop k acc cs = (Inr r, cs') \<Longrightarrow> length r = length acc + k"
  by (induction k arbitrary: acc cs) (auto split: if_splits)

lemma draw_length:
  "0 \<le> n \<Longrightarrow> draw n d = (Inr r, d') \<Longrightarrow> int (length r) = n"
  by (auto simp: draw_def split: if_splits prod.splits dest: draw_loop_length)

lemma deal_players_frame:
  "deal_players h d i ps = Inr (h', d') \<Longrightarrow>
   length h' = length h \<and> (p \<notin> set ps \<longrightarrow> h' ! p = h ! p)"
proof (induction ps arbitrary: h d i)
  case Nil
  then show ?case by simp
next
  case (Cons q ps)
  from Cons.prems obtain drawn d1 where
    dr: "draw 4 d = (Inr drawn, d1)" and
    rest: "deal_players (h[q := (h ! q)\<lparr>turnOrder := Some i, trainCards := drawn\<rparr>]) d1 (i + 1) ps
           = Inr (h', d')"
    by (auto split: prod.splits sum.splits)
  from Cons.IH [OF rest] show ?case by auto
qed

lemma deal_players_hand:
  "deal_players h d i ps = Inr (h', d') \<Longrightarrow> p \<in> set ps \<Longrightarrow> p < length h \<Longrightarrow>
   length (trainCards (h' ! p)) = 4"
proof (induction ps arbitrary: h d i)
  case Nil
  then show ?case by simp
next
  case (Cons q ps)
  from Cons.prems(1) obtain drawn d1 where
    dr: "draw 4 d = (Inr drawn, d1)" and
    rest: "deal_players (h[q := (h ! q)\<lparr>turnOrder := Some i, trainCards := drawn\<rparr>]) d1 (i + 1) ps
           = Inr (h', d')"
    by (auto split: prod.splits sum.splits)
  from dr have four: "length drawn = 4"
    using draw_length [of 4 d drawn d1] by simp
  show ?case
  proof (cases "p \<in> set ps")
    case True
    from Cons.IH [OF rest True] Cons.prems(3) show ?thesis by simp
  next
    case False
    with Cons.prems(2) have "p = q" by simp
    with deal_players_frame [OF rest, of p] False Cons.prems(3) four
    show ?thesis by simp
  qed
qed

lemma deepcopy_agents_extends:
  "deepcopy_agents h memo as = (h', bs) \<Longrightarrow> \<exists>ext. h' = h @ ext"
proof (induction as arbitrary: h memo h' bs)
  case Nil
  then show ?case by simp
next
  case (Cons a as)
  show ?case
  proof (cases "map_of memo a")
    case None
    with Cons.prems obtain bs' where
      "deepcopy_agents (h @ [h ! a]) ((a, length h) # memo) as = (h', bs')"
      by (auto simp: Let_def split: prod.splits)
    from Cons.IH [OF this] show ?thesis by auto
  next
    case (Some b)
    with Cons.prems obtain bs' where "deepcopy_agents h memo as = (h', bs')"
      by (auto simp: Let_def split: prod.splits)
    from Cons.IH [OF this] show ?thesis .
  qed
qed

text \<open>
  Whatever the shuffle of the new deck: when \<open>clone\<close> returns, every player of the cloned
  game holds exactly four cards, those the constructor of the new game dealt to it.
\<close>

lemma clone_deals_new_hands:
  assumes "clone env h self = Inr (h', new)"
    and "p \<in> set (players self)" and "p < length h"
  shows "length (trainCards (h' ! p)) = 4"
proof -
  from assms(1) obtain h1 g1 h2 ps' where
    init: "Game_init env h (map_name self) (players self) False False = Inr (h1, g1)" and
    copy: "deepcopy_agents h1 [] (players self) = (h2, ps')" and
    h': "h' = h2 @ [h2 ! makingNextMove self]"
    by (auto simp: clone_def deepcopy_agent_def Let_def split: sum.splits prod.splits)
  from init obtain d1 d2 where
    deal: "deal_players h d1 0 (players self) = Inr (h1, d2)"
    by (auto simp: Game_init_def Let_def split: sum.splits prod.splits if_splits)
  from deal_players_frame [OF deal] have len: "length h1 = length h" by simp
  from deal_players_hand [OF deal assms(2,3)] have "length (trainCards (h1 ! p)) = 4" .
  moreover from deepcopy_agents_extends [OF copy] obtain ext where "h2 = h1 @ ext" ..
  ultimately show ?thesis using h' len assms(3) by (simp add: nth_append)
qed

text \<open>
  C3. \<open>clone\<close> hands the players of the game itself to the constructor of the new game,
  which deals four cards of the new deck to each of them before the copies are made.
  Evaluated on a game whose first player holds three red cards, with a shuffle that
  leaves the new deck in the order it was built: the call returns, and in the store it
  leaves, the first player of the original game holds four wildcards.
\<close>

theorem clone_overwrites_hands:
  "\<not> isl (clone env_fixed (heap_with [''RED'', ''RED'', ''RED'']) (game_with [] None [] []))
   \<and> players (game_with [] None [] []) = [0, 1]
   \<and> trainCards (heap_with [''RED'', ''RED'', ''RED''] ! 0) = [''RED'', ''RED'', ''RED'']
   \<and> trainCards (fst (projr (clone env_fixed (heap_with [''RED'', ''RED'', ''RED''])
                                (game_with [] None [] []))) ! 0)
     = [''WILD'', ''WILD'', ''WILD'', ''WILD'']"
  by code_simp

end
